theory Spec2Isabelle
  imports Complex_Main "HOL-Library.Log_Nat"
begin

section \<open>The scroll-driven image sequence player (docs/js/sequence-player.js)\<close>

text \<open>
  The class \<open>SequencePlayer\<close> is embedded as a record of its fields and one HOL function per
  method, with the object passed in and returned. Every JavaScript number is a double:
  the pixel quantities read from the layout are real numbers that are doubles, the frame
  indices, frame numbers and years are integers that are doubles, and a division, a product
  or a sum whose exact result need not be a double is rounded to the nearest one. Negation,
  comparison, \<open>Math.floor\<close>, \<open>Math.min\<close>, \<open>Math.max\<close>, and sums and differences of
  integers that stay within \<open>2^53\<close> are exact. The letterbox geometry of \<open>setupCanvas\<close>
  only decides where an image is painted, never which one, and is left out.
\<close>

subsection \<open>The words of the specification\<close>

text \<open>\<open>clamp(x, lo, hi)\<close> as the specification uses it.\<close>

definition clamp :: "'a::linorder \<Rightarrow> 'a \<Rightarrow> 'a \<Rightarrow> 'a" where
  "clamp x lo hi = (if x < lo then lo else if hi < x then hi else x)"

subsection \<open>JavaScript numbers\<close>

text \<open>Powers of two with an integer exponent.\<close>

definition pow2 :: "int \<Rightarrow> real" where
  "pow2 k = power_int 2 k"

text \<open>
  The binary exponent of a positive real: \<open>binade x\<close> is the \<open>e\<close> with
  \<open>2^e \<le> x < 2^(e+1)\<close>, read off the bit length of the integer part of \<open>x\<close> or of
  \<open>1 / x\<close>.
\<close>

definition binade :: "real \<Rightarrow> int" where
  "binade x = (if 1 \<le> x then bitlen \<lfloor>x\<rfloor> - 1 else - bitlen (\<lceil>1 / x\<rceil> - 1))"

text \<open>Rounding to the nearest integer, a tie going to the even one.\<close>

definition roundEven :: "real \<Rightarrow> int" where
  "roundEven y =
     (let f = \<lfloor>y\<rfloor>; d = y - of_int f
      in if d < 1 / 2 then f else if 1 / 2 < d then f + 1 else if even f then f else f + 1)"

text \<open>
  Rounding a real to the nearest IEEE 754 double, ties to even: the unit in the last place
  is \<open>2^(e - 52)\<close> for the binary exponent \<open>e\<close> of the number, and \<open>2^(-1074)\<close> for the
  subnormal numbers below \<open>2^(-1022)\<close>. A result beyond the largest double is an infinity
  in JavaScript; the quotients and products of the scroll handler never get there, since
  they are bounded by 1 and by a number the player holds.
\<close>

definition toDouble :: "real \<Rightarrow> real" where
  "toDouble x =
     (if x = 0 then 0
      else let u = pow2 (max (binade \<bar>x\<bar>) (- 1022) - 52)
           in of_int (roundEven (x / u)) * u)"

text \<open>The operators \<open>/\<close> and \<open>*\<close> on doubles, and a sum or difference of integers.\<close>

definition jsDiv :: "real \<Rightarrow> real \<Rightarrow> real" where
  "jsDiv a b = toDouble (a / b)"

definition jsMul :: "real \<Rightarrow> real \<Rightarrow> real" where
  "jsMul a b = toDouble (a * b)"

definition jsInt :: "int \<Rightarrow> int" where
  "jsInt n = \<lfloor>toDouble (of_int n)\<rfloor>"

subsection \<open>Strings: decimal rendering, \<open>padStart\<close>, \<open>replace\<close>\<close>

definition digitChar :: "nat \<Rightarrow> char" where
  "digitChar d = ''0123456789'' ! d"

text \<open>\<open>Number.prototype.toString\<close> on a non-negative integer: its decimal digits.\<close>

function digitsOf :: "nat \<Rightarrow> string" where
  "digitsOf n = (if n < 10 then [digitChar n] else digitsOf (n div 10) @ [digitChar (n mod 10)])"
  by pat_completeness auto
termination
  by (relation "measure id") auto

declare digitsOf.simps [simp del]

text \<open>
  \<open>toString\<close> on an integer: a minus sign before the digits of a negative number. Above
  \<open>2^53\<close> JavaScript prints the shortest decimal that reads back as the same double, and
  from \<open>10^21\<close> on in exponent notation; neither is modelled, and the frame numbers of
  the properties below are under \<open>2^53\<close>.
\<close>

definition toString :: "int \<Rightarrow> string" where
  "toString i = (if i < 0 then CHR ''-'' # digitsOf (nat (- i)) else digitsOf (nat i))"

text \<open>
  \<open>String.prototype.padStart(targetLength, '0')\<close>: the string is returned as it is when
  it already has \<open>targetLength\<close> characters or more (also for a negative \<open>targetLength\<close>).
  An engine raises \<open>RangeError\<close> when it is asked for a string longer than its limit; the
  model has no limit, and \<open>maxStringLength\<close> below bounds the strings of the properties.
\<close>

definition padStart :: "int \<Rightarrow> char \<Rightarrow> string \<Rightarrow> string" where
  "padStart targetLength c str = replicate (nat targetLength - length str) c @ str"

text \<open>
  \<open>String.prototype.replace(pat, rep)\<close> with a string pattern: only the first occurrence
  is replaced. The replacement used by the player consists of digits, zeros and possibly a
  minus sign, so the \<open>$\<close> replacement patterns of JavaScript never apply.
\<close>

fun replace :: "string \<Rightarrow> string \<Rightarrow> string \<Rightarrow> string" where
  "replace pat rep [] = (if pat = [] then rep else [])"
| "replace pat rep (c # cs) =
     (if take (length pat) (c # cs) = pat then rep @ drop (length pat) (c # cs)
      else c # replace pat rep cs)"







subsection \<open>The player object\<close>

text \<open>
  An \<open>Image\<close> object is identified by the request that created it and the URL assigned to
  its \<open>src\<close>.
\<close>

datatype img = Image nat string

text \<open>
  The fields of \<open>SequencePlayer\<close>, followed by the parts of the browser the methods act
  on: whether the 2d context, the overlay and the two year-indicator elements exist, the
  classes toggled on the section and the overlay, every image painted on the canvas and every
  year written to the indicator (in order), every image request started (frame index and URL,
  in order), the requests that have not fired \<open>onload\<close> or \<open>onerror\<close> yet (request number,
  frame index, URL), and which of them a suspended \<open>drawFrame\<close> or \<open>init\<close> awaits.
\<close>

record player =
  sequenceName :: "string option"
  startFrame :: int
  endFrame :: int
  totalFrames :: int
  pattern :: string
  padding :: int
  framesPerYear :: int
  startYear :: int
  hasYearIndicator :: bool
  yearValueEl :: bool
  countriesListEl :: bool
  currentYear :: int
  images :: "img option list"
  loadingFrames :: "int set"
  currentFrame :: int
  overlay :: bool
  bufferSize :: int
  initialized :: bool
  ctx :: bool
  scrollBound :: bool
  inView :: bool
  overlayVisible :: bool
  canvasLog :: "img list"
  yearLog :: "int list"
  fetchLog :: "(int \<times> string) list"
  outstanding :: "(nat \<times> int \<times> string) list"
  drawWaiting :: "nat list"
  initWaiting :: "nat option"

text \<open>\<open>this.images[i]\<close>: \<open>undefined\<close> outside the array, which is as falsy as \<open>null\<close>.\<close>

definition imageAt :: "player \<Rightarrow> int \<Rightarrow> img option" where
  "imageAt s i = (if 0 \<le> i \<and> i < int (length (images s)) then images s ! nat i else None)"

text \<open>\<open>this.images[i] = v\<close>: an assignment past the end extends a JavaScript array.\<close>

definition setImage :: "img option list \<Rightarrow> nat \<Rightarrow> img \<Rightarrow> img option list" where
  "setImage xs i v =
     (if i < length xs then xs[i := Some v] else xs @ replicate (i - length xs) None @ [Some v])"

subsection \<open>\<open>getFrameSrc\<close>\<close>

text \<open>
  A template literal renders a missing \<open>data-sequence\<close> attribute as the text
  \<open>undefined\<close>.
\<close>

definition interpolate :: "string option \<Rightarrow> string" where
  "interpolate v = (case v of None \<Rightarrow> ''undefined'' | Some str \<Rightarrow> str)"

text \<open>
  The first line of \<open>getFrameSrc\<close>: the frame number as text. The sum is a sum of
  doubles and is rounded when it leaves the integers that doubles hold exactly.
\<close>

definition frameNum :: "player \<Rightarrow> int \<Rightarrow> string" where
  "frameNum s frameIndex =
     padStart (padding s) CHR ''0'' (toString (jsInt (startFrame s + frameIndex)))"

definition getFrameSrc :: "player \<Rightarrow> int \<Rightarrow> string" where
  "getFrameSrc s frameIndex =
     (let filename = replace ''{frame}'' (frameNum s frameIndex) (pattern s)
      in interpolate (sequenceName s) @ ''/'' @ filename)"

subsection \<open>\<open>loadFrame\<close>\<close>

text \<open>
  What a call of \<open>loadFrame\<close> gives its caller: a promise that is already settled
  (with \<open>null\<close> or the cached image), or the promise of a request just started, settled
  when that request fires \<open>onload\<close> or \<open>onerror\<close>.
\<close>

datatype loaded = Settled "img option" | Pending nat

definition loadFrame :: "player \<Rightarrow> int \<Rightarrow> player \<times> loaded" where
  "loadFrame s frameIndex =
     (if frameIndex < 0 \<or> frameIndex \<ge> totalFrames s then (s, Settled None)
      else if imageAt s frameIndex \<noteq> None then (s, Settled (imageAt s frameIndex))
      else if frameIndex \<in> loadingFrames s then (s, Settled None)
      else
        (let src = getFrameSrc s frameIndex;
             rid = length (fetchLog s)
         in (s\<lparr>loadingFrames := insert frameIndex (loadingFrames s),
               fetchLog := fetchLog s @ [(frameIndex, src)],
               outstanding := outstanding s @ [(rid, frameIndex, src)]\<rparr>,
             Pending rid)))"

subsection \<open>\<open>preloadBuffer\<close>\<close>

text \<open>The \<open>for\<close> loop of \<open>preloadBuffer\<close>, from \<open>i\<close> up to \<open>endI\<close> inclusive.\<close>

function preloadLoop :: "player \<Rightarrow> int \<Rightarrow> int \<Rightarrow> player" where
  "preloadLoop s i endI =
     (if i \<le> endI
      then preloadLoop
             (if imageAt s i = None \<and> i \<notin> loadingFrames s then fst (loadFrame s i) else s)
             (i + 1) endI
      else s)"
  by pat_completeness auto
termination
  by (relation "measure (\<lambda>(s, i, endI). nat (endI + 1 - i))") auto

declare preloadLoop.simps [simp del]

definition preloadBuffer :: "player \<Rightarrow> int \<Rightarrow> player" where
  "preloadBuffer s centerFrame =
     (let start = max 0 (centerFrame - bufferSize s);
          endI = min (totalFrames s - 1) (centerFrame + bufferSize s)
      in preloadLoop s start endI)"

subsection \<open>\<open>updateYearIndicator\<close>, \<open>updateOverlay\<close>\<close>

text \<open>
  The year is written to \<open>textContent\<close>; the list of countries rendered beside it from
  the table \<open>TOP_EMITTERS_BY_YEAR\<close> is not modelled.
\<close>

definition updateYearIndicator :: "player \<Rightarrow> int \<Rightarrow> player" where
  "updateYearIndicator s year =
     (if \<not> yearValueEl s \<or> \<not> countriesListEl s then s
      else s\<lparr>yearLog := yearLog s @ [year]\<rparr>)"

definition updateOverlay :: "player \<Rightarrow> bool \<Rightarrow> player" where
  "updateOverlay s show = (if overlay s then s\<lparr>overlayVisible := show\<rparr> else s)"

subsection \<open>\<open>drawFrame\<close>\<close>

text \<open>The two canvas calls that end \<open>drawFrame\<close>: clear to black, paint the image.\<close>

definition paint :: "player \<Rightarrow> img \<Rightarrow> player" where
  "paint s im = s\<lparr>canvasLog := canvasLog s @ [im]\<rparr>"

text \<open>
  The rest of \<open>drawFrame\<close> after its \<open>await\<close>, given what the promise settled with:
  the fallback to frame 0, then the painting.
\<close>

definition drawResume :: "player \<Rightarrow> img option \<Rightarrow> player" where
  "drawResume s r =
     (let im = (if r = None \<and> imageAt s 0 \<noteq> None then imageAt s 0 else r)
      in case im of None \<Rightarrow> s | Some i \<Rightarrow> paint s i)"

text \<open>
  \<open>drawFrame\<close> up to its \<open>await\<close>. Awaiting a promise that is already settled resumes
  in a microtask, after the synchronous code of the running task and before any other
  task. No caller writes to \<open>images\<close> or to the canvas after its call of \<open>drawFrame\<close>,
  so that resumption is taken at once here. Awaiting a request just started suspends until
  the request fires.
\<close>

definition drawFrame :: "player \<Rightarrow> int \<Rightarrow> player" where
  "drawFrame s index =
     (if \<not> ctx s then s
      else case imageAt s index of
        Some im \<Rightarrow> paint s im
      | None \<Rightarrow>
          (case loadFrame s index of
             (s', Settled r) \<Rightarrow> drawResume s' r
           | (s', Pending rid) \<Rightarrow> s'\<lparr>drawWaiting := drawWaiting s' @ [rid]\<rparr>))"

subsection \<open>\<open>onScroll\<close>\<close>

text \<open>
  The handler takes what it reads from the layout: \<open>rect.top\<close>, \<open>rect.bottom\<close>,
  \<open>section.offsetHeight\<close> and \<open>window.innerHeight\<close>. The two heights are integers, so
  their difference is exact, and so is the negation of \<open>rect.top\<close>; the literals 0.05 and
  0.95 are the doubles nearest to them. Two divisions by zero give
  \<open>NaN\<close> or an infinity in JavaScript, values the integer frame index and year of this
  model do not have: \<open>scrollStart / scrollRange\<close> when both are 0, and
  \<open>frameIndex / framesPerYear\<close> when \<open>framesPerYear\<close> is 0 (which the constructor never
  combines with \<open>hasYearIndicator\<close>). The model answers \<open>None\<close> there.
\<close>

text \<open>The two lines that map the scroll position to a frame.\<close>

definition scrollProgress :: "real \<Rightarrow> real \<Rightarrow> real" where
  "scrollProgress scrollStart scrollRange = max 0 (min 1 (jsDiv scrollStart scrollRange))"

definition scrollFrameIndex :: "player \<Rightarrow> real \<Rightarrow> int" where
  "scrollFrameIndex s progress =
     \<lfloor>jsMul progress (real_of_int (jsInt (totalFrames s - 1)))\<rfloor>"

definition onScroll :: "player \<Rightarrow> real \<Rightarrow> real \<Rightarrow> real \<Rightarrow> real \<Rightarrow> player option" where
  "onScroll s rectTop rectBottom sectionHeight viewportHeight =
     (if \<not> initialized s then Some s
      else
        let scrollStart = - rectTop;
            scrollRange = sectionHeight - viewportHeight;
            isInView = (rectTop < viewportHeight \<and> rectBottom > 0);
            s1 = s\<lparr>inView := isInView\<rparr>
        in if scrollStart < 0 then Some (updateOverlay s1 False)
           else if scrollStart > scrollRange then
             (let s2 = drawFrame s1 (jsInt (totalFrames s1 - 1));
                  s3 = updateOverlay s2 False
              in Some (if hasYearIndicator s3 then updateYearIndicator s3 2016 else s3))
           else if scrollRange = 0 \<or> (hasYearIndicator s1 \<and> framesPerYear s1 = 0) then None
           else
             (let progress = scrollProgress scrollStart scrollRange;
                  frameIndex = scrollFrameIndex s1 progress;
                  s4 =
                    (if frameIndex \<noteq> currentFrame s1
                     then
                       (let s2 = drawFrame (s1\<lparr>currentFrame := frameIndex\<rparr>) frameIndex;
                            s3 = preloadBuffer s2 frameIndex
                        in if hasYearIndicator s3
                           then
                             (let year = jsInt (startYear s3 +
                                    \<lfloor>jsDiv (real_of_int frameIndex)
                                       (real_of_int (framesPerYear s3))\<rfloor>);
                                  clampedYear = min 2016 (max 2000 year)
                              in if clampedYear \<noteq> currentYear s3
                                 then updateYearIndicator (s3\<lparr>currentYear := clampedYear\<rparr>)
                                        clampedYear
                                 else s3)
                           else s3)
                     else s1)
              in Some (updateOverlay s4
                   (progress > toDouble 0.05 \<and> progress < toDouble 0.95))))"

subsection \<open>\<open>init\<close> and the constructor\<close>

text \<open>
  \<open>init\<close> after its \<open>await\<close>: \<open>setupCanvas\<close> (geometry only), \<open>bindScroll\<close>,
  \<open>drawFrame(0)\<close>, the flag, the first window and the first year.
\<close>

definition initResume :: "player \<Rightarrow> player" where
  "initResume s =
     (let s1 = s\<lparr>scrollBound := True\<rparr>;
          s2 = drawFrame s1 0;
          s3 = s2\<lparr>initialized := True\<rparr>;
          s4 = preloadBuffer s3 0
      in if hasYearIndicator s4 then updateYearIndicator s4 (startYear s4) else s4)"

text \<open>\<open>init\<close> up to its \<open>await\<close> of \<open>loadFrame(0)\<close>.\<close>

definition init :: "player \<Rightarrow> player" where
  "init s =
     (case loadFrame s 0 of
        (s', Settled r) \<Rightarrow> initResume s'
      | (s', Pending rid) \<Rightarrow> s'\<lparr>initWaiting := Some rid\<rparr>)"

text \<open>
  What the constructor reads from the document: whether the elements exist, and the
  \<open>data-\<close> attributes of the section, the numeric ones after \<open>parseInt\<close> (\<open>None\<close> for a
  missing attribute or one that does not parse).
\<close>

record config =
  sectionFound :: bool
  canvasFound :: bool
  contextFound :: bool
  overlayFound :: bool
  yearValueFound :: bool
  countriesListFound :: bool
  dataSequence :: "string option"
  dataStart :: "int option"
  dataEnd :: "int option"
  dataPattern :: "string option"
  dataPadding :: "int option"
  dataFramesPerYear :: "int option"
  dataStartYear :: "int option"

text \<open>\<open>parseInt(x) || d\<close>: the default replaces \<open>NaN\<close> and 0.\<close>

definition orDefault :: "int option \<Rightarrow> int \<Rightarrow> int" where
  "orDefault v d = (case v of None \<Rightarrow> d | Some n \<Rightarrow> if n = 0 then d else n)"

text \<open>
  The constructor returns early, with nothing started, when the section or the canvas is
  missing; \<open>new Array(n)\<close> throws a \<open>RangeError\<close> for a negative length and for one above
  \<open>2^32 - 1\<close>.
\<close>

datatype ctorError = NotFound | RangeError

definition construct :: "config \<Rightarrow> ctorError + player" where
  "construct c =
     (if \<not> sectionFound c \<or> \<not> canvasFound c then Inl NotFound
      else
        (let startF = orDefault (dataStart c) 1;
             endF = orDefault (dataEnd c) 100;
             total = endF - startF + 1;
             fpy = orDefault (dataFramesPerYear c) 0;
             startY = orDefault (dataStartYear c) 2000
         in if total < 0 \<or> total > 4294967295 then Inl RangeError
            else Inr (init
              \<lparr>sequenceName = dataSequence c,
               startFrame = startF,
               endFrame = endF,
               totalFrames = total,
               pattern = (case dataPattern c of None \<Rightarrow> ''render{frame}.png''
                          | Some p \<Rightarrow> if p = [] then ''render{frame}.png'' else p),
               padding = orDefault (dataPadding c) 3,
               framesPerYear = fpy,
               startYear = startY,
               hasYearIndicator = (fpy > 0),
               yearValueEl = yearValueFound c,
               countriesListEl = countriesListFound c,
               currentYear = startY,
               images = replicate (nat total) None,
               loadingFrames = {},
               currentFrame = 0,
               overlay = overlayFound c,
               bufferSize = 15,
               initialized = False,
               ctx = contextFound c,
               scrollBound = False,
               inView = False,
               overlayVisible = False,
               canvasLog = [],
               yearLog = [],
               fetchLog = [],
               outstanding = [],
               drawWaiting = [],
               initWaiting = None\<rparr>)))"

subsection \<open>The events of the page\<close>

text \<open>
  Settling the promise of request \<open>rid\<close> resumes whoever awaits it: a \<open>drawFrame\<close>,
  \<open>init\<close>, or nobody (\<open>preloadBuffer\<close> drops the promise).
\<close>

definition settle :: "player \<Rightarrow> nat \<Rightarrow> img option \<Rightarrow> player" where
  "settle s rid r =
     (if rid \<in> set (drawWaiting s)
      then drawResume (s\<lparr>drawWaiting := removeAll rid (drawWaiting s)\<rparr>) r
      else if initWaiting s = Some rid then initResume (s\<lparr>initWaiting := None\<rparr>)
      else s)"

text \<open>
  The two callbacks that \<open>loadFrame\<close> installs on the image of request \<open>rid\<close> for frame
  \<open>frameIndex\<close>, up to their call of \<open>resolve\<close>.
\<close>

definition onload :: "player \<Rightarrow> nat \<Rightarrow> int \<Rightarrow> string \<Rightarrow> player" where
  "onload s rid frameIndex src =
     s\<lparr>images := setImage (images s) (nat frameIndex) (Image rid src),
       loadingFrames := loadingFrames s - {frameIndex},
       outstanding := filter (\<lambda>p. fst p \<noteq> rid) (outstanding s)\<rparr>"

definition onerror :: "player \<Rightarrow> nat \<Rightarrow> int \<Rightarrow> player" where
  "onerror s rid frameIndex =
     s\<lparr>loadingFrames := loadingFrames s - {frameIndex},
       outstanding := filter (\<lambda>p. fst p \<noteq> rid) (outstanding s)\<rparr>"

text \<open>
  The image of request \<open>rid\<close> loads: the callback, then the promise settles with the
  image. Nothing happens for a request that is not pending.
\<close>

definition imgOnload :: "player \<Rightarrow> nat \<Rightarrow> player" where
  "imgOnload s rid =
     (case map_of (outstanding s) rid of
        None \<Rightarrow> s
      | Some (frameIndex, src) \<Rightarrow>
          settle (onload s rid frameIndex src) rid (Some (Image rid src)))"

text \<open>The image of request \<open>rid\<close> fails: the callback, then the promise settles with \<open>null\<close>.\<close>

definition imgOnerror :: "player \<Rightarrow> nat \<Rightarrow> player" where
  "imgOnerror s rid =
     (case map_of (outstanding s) rid of
        None \<Rightarrow> s
      | Some (frameIndex, src) \<Rightarrow> settle (onerror s rid frameIndex) rid None)"

text \<open>The \<open>resize\<close> listener: \<open>setupCanvas\<close> (geometry only), then \<open>drawFrame\<close>.\<close>

definition onResize :: "player \<Rightarrow> player" where
  "onResize s = drawFrame s (currentFrame s)"

text \<open>
  The states a player goes through: the constructor, then any sequence of scroll and resize
  events (once \<open>bindScroll\<close> has run) and of image requests firing.
\<close>

inductive reachable :: "player \<Rightarrow> bool" where
  constructed: "construct c = Inr s \<Longrightarrow> reachable s"
| scrolled: "reachable s \<Longrightarrow> scrollBound s \<Longrightarrow> onScroll s rectTop rectBottom sectionHeight viewportHeight = Some s'
     \<Longrightarrow> reachable s'"
| resized: "reachable s \<Longrightarrow> scrollBound s \<Longrightarrow> reachable (onResize s)"
| loaded: "reachable s \<Longrightarrow> reachable (imgOnload s rid)"
| failed: "reachable s \<Longrightarrow> reachable (imgOnerror s rid)"

subsection \<open>The fields that loading and painting never write\<close>

definition untouched ::
  "player \<Rightarrow> (string option \<times> int \<times> int \<times> int \<times> string \<times> int) \<times>
     (int \<times> int \<times> bool \<times> bool \<times> bool \<times> int) \<times>
     (img option list \<times> int \<times> bool \<times> int \<times> bool \<times> bool) \<times>
     (bool \<times> bool \<times> bool \<times> int list \<times> nat option)" where
  "untouched s =
     ((sequenceName s, startFrame s, endFrame s, totalFrames s, pattern s, padding s),
      (framesPerYear s, startYear s, hasYearIndicator s, yearValueEl s, countriesListEl s,
       currentYear s),
      (images s, currentFrame s, overlay s, bufferSize s, initialized s, ctx s),
      (scrollBound s, inView s, overlayVisible s, yearLog s, initWaiting s))"

subsection \<open>Consistency of the requests with the cache\<close>

text \<open>
  What ties the pending requests to the fields of the player: request numbers and frame
  indices of pending requests are unique, \<open>loadingFrames\<close> holds exactly the frames of the
  pending requests, every pending request was logged, is for a frame of the sequence and has
  an empty cache slot, and the cache has \<open>totalFrames\<close> slots.
\<close>

definition pendingOk :: "player \<Rightarrow> nat \<times> int \<times> string \<Rightarrow> bool" where
  "pendingOk s p =
     (fst p < length (fetchLog s) \<and> 0 \<le> fst (snd p) \<and> fst (snd p) < totalFrames s \<and>
      imageAt s (fst (snd p)) = None)"

definition consistent :: "player \<Rightarrow> bool" where
  "consistent s =
     (distinct (map fst (outstanding s)) \<and>
      distinct (map (fst \<circ> snd) (outstanding s)) \<and>
      loadingFrames s = set (map (fst \<circ> snd) (outstanding s)) \<and>
      list_all (pendingOk s) (outstanding s) \<and>
      length (images s) = nat (totalFrames s))"

subsection \<open>Concrete pages\<close>

text \<open>
  A section with \<open>data-sequence="seq"\<close>, \<open>data-end="1500"\<close> and the defaults for the
  rest, and the player its constructor returns.
\<close>

definition longPage :: config where
  "longPage =
     \<lparr>sectionFound = True, canvasFound = True, contextFound = True, overlayFound = True,
      yearValueFound = False, countriesListFound = False, dataSequence = Some ''seq'',
      dataStart = None, dataEnd = Some 1500, dataPattern = None, dataPadding = None,
      dataFramesPerYear = None, dataStartYear = None\<rparr>"

definition longPlayer :: player where
  "longPlayer =
     \<lparr>sequenceName = Some ''seq'', startFrame = 1, endFrame = 1500, totalFrames = 1500,
      pattern = ''render{frame}.png'', padding = 3, framesPerYear = 0, startYear = 2000,
      hasYearIndicator = False, yearValueEl = False, countriesListEl = False,
      currentYear = 2000, images = replicate 1500 None, loadingFrames = {0},
      currentFrame = 0, overlay = True, bufferSize = 15, initialized = False, ctx = True,
      scrollBound = False, inView = False, overlayVisible = False, canvasLog = [],
      yearLog = [], fetchLog = [(0, ''seq/render001.png'')],
      outstanding = [(0, 0, ''seq/render001.png'')], drawWaiting = [],
      initWaiting = Some 0\<rparr>"

text \<open>
  A three-frame section that starts in 1990, one frame per year, with every element present;
  the player its constructor returns; the player once frame 0 has loaded and \<open>init\<close> has
  finished; once frames 1 and 2 have loaded too; and after a scroll to the very end of the
  section.
\<close>

definition smallPage :: config where
  "smallPage =
     \<lparr>sectionFound = True, canvasFound = True, contextFound = True, overlayFound = True,
      yearValueFound = True, countriesListFound = True, dataSequence = Some ''seq'',
      dataStart = None, dataEnd = Some 3, dataPattern = None, dataPadding = None,
      dataFramesPerYear = Some 1, dataStartYear = Some 1990\<rparr>"

definition smallStart :: player where
  "smallStart =
     \<lparr>sequenceName = Some ''seq'', startFrame = 1, endFrame = 3, totalFrames = 3,
      pattern = ''render{frame}.png'', padding = 3, framesPerYear = 1, startYear = 1990,
      hasYearIndicator = True, yearValueEl = True, countriesListEl = True, currentYear = 1990,
      images = [None, None, None], loadingFrames = {0}, currentFrame = 0, overlay = True,
      bufferSize = 15, initialized = False, ctx = True, scrollBound = False, inView = False,
      overlayVisible = False, canvasLog = [], yearLog = [],
      fetchLog = [(0, ''seq/render001.png'')], outstanding = [(0, 0, ''seq/render001.png'')],
      drawWaiting = [], initWaiting = Some 0\<rparr>"

definition smallReady :: player where
  "smallReady =
     \<lparr>sequenceName = Some ''seq'', startFrame = 1, endFrame = 3, totalFrames = 3,
      pattern = ''render{frame}.png'', padding = 3, framesPerYear = 1, startYear = 1990,
      hasYearIndicator = True, yearValueEl = True, countriesListEl = True, currentYear = 1990,
      images = [Some (Image 0 ''seq/render001.png''), None, None], loadingFrames = {2, 1},
      currentFrame = 0, overlay = True, bufferSize = 15, initialized = True, ctx = True,
      scrollBound = True, inView = False, overlayVisible = False,
      canvasLog = [Image 0 ''seq/render001.png''], yearLog = [1990],
      fetchLog = [(0, ''seq/render001.png''), (1, ''seq/render002.png''), (2, ''seq/render003.png'')],
      outstanding = [(1, 1, ''seq/render002.png''), (2, 2, ''seq/render003.png'')],
      drawWaiting = [], initWaiting = None\<rparr>"

definition smallFull :: player where
  "smallFull =
     \<lparr>sequenceName = Some ''seq'', startFrame = 1, endFrame = 3, totalFrames = 3,
      pattern = ''render{frame}.png'', padding = 3, framesPerYear = 1, startYear = 1990,
      hasYearIndicator = True, yearValueEl = True, countriesListEl = True, currentYear = 1990,
      images = [Some (Image 0 ''seq/render001.png''), Some (Image 1 ''seq/render002.png''), Some (Image 2 ''seq/render003.png'')],
      loadingFrames = {}, currentFrame = 0, overlay = True, bufferSize = 15,
      initialized = True, ctx = True, scrollBound = True, inView = False,
      overlayVisible = False, canvasLog = [Image 0 ''seq/render001.png''], yearLog = [1990],
      fetchLog = [(0, ''seq/render001.png''), (1, ''seq/render002.png''), (2, ''seq/render003.png'')],
      outstanding = [], drawWaiting = [], initWaiting = None\<rparr>"

definition smallAtEnd :: player where
  "smallAtEnd =
     \<lparr>sequenceName = Some ''seq'', startFrame = 1, endFrame = 3, totalFrames = 3,
      pattern = ''render{frame}.png'', padding = 3, framesPerYear = 1, startYear = 1990,
      hasYearIndicator = True, yearValueEl = True, countriesListEl = True, currentYear = 2000,
      images = [Some (Image 0 ''seq/render001.png''), Some (Image 1 ''seq/render002.png''), Some (Image 2 ''seq/render003.png'')],
      loadingFrames = {}, currentFrame = 2, overlay = True, bufferSize = 15,
      initialized = True, ctx = True, scrollBound = True, inView = True,
      overlayVisible = False,
      canvasLog = [Image 0 ''seq/render001.png'', Image 2 ''seq/render003.png''],
      yearLog = [1990, 2000],
      fetchLog = [(0, ''seq/render001.png''), (1, ''seq/render002.png''), (2, ''seq/render003.png'')],
      outstanding = [], drawWaiting = [], initWaiting = None\<rparr>"

text \<open>
  A section with \<open>data-start="5"\<close> and \<open>data-end="4"\<close>, and the player its constructor
  returns: no frame at all, so \<open>init\<close> runs to its end at once.
\<close>

definition emptyPage :: config where
  "emptyPage =
     \<lparr>sectionFound = True, canvasFound = True, contextFound = True, overlayFound = True,
      yearValueFound = False, countriesListFound = False, dataSequence = Some ''seq'',
      dataStart = Some 5, dataEnd = Some 4, dataPattern = None, dataPadding = None,
      dataFramesPerYear = None, dataStartYear = None\<rparr>"

definition emptyPlayer :: player where
  "emptyPlayer =
     \<lparr>sequenceName = Some ''seq'', startFrame = 5, endFrame = 4, totalFrames = 0,
      pattern = ''render{frame}.png'', padding = 3, framesPerYear = 0, startYear = 2000,
      hasYearIndicator = False, yearValueEl = False, countriesListEl = False,
      currentYear = 2000, images = [], loadingFrames = {}, currentFrame = 0, overlay = True,
      bufferSize = 15, initialized = True, ctx = True, scrollBound = True, inView = False,
      overlayVisible = False, canvasLog = [], yearLog = [], fetchLog = [], outstanding = [],
      drawWaiting = [], initWaiting = None\<rparr>"

text \<open>
  A section of 480 frames, 30 frames per year from 2000, and the player its constructor
  returns.
\<close>

definition heroPage :: config where
  "heroPage =
     \<lparr>sectionFound = True, canvasFound = True, contextFound = True, overlayFound = True,
      yearValueFound = True, countriesListFound = True, dataSequence = Some ''seq'',
      dataStart = None, dataEnd = Some 480, dataPattern = None, dataPadding = None,
      dataFramesPerYear = Some 30, dataStartYear = None\<rparr>"

definition heroStart :: player where
  "heroStart =
     \<lparr>sequenceName = Some ''seq'', startFrame = 1, endFrame = 480, totalFrames = 480,
      pattern = ''render{frame}.png'', padding = 3, framesPerYear = 30, startYear = 2000,
      hasYearIndicator = True, yearValueEl = True, countriesListEl = True, currentYear = 2000,
      images = replicate 480 None, loadingFrames = {0}, currentFrame = 0, overlay = True,
      bufferSize = 15, initialized = False, ctx = True, scrollBound = False, inView = False,
      overlayVisible = False, canvasLog = [], yearLog = [],
      fetchLog = [(0, ''seq/render001.png'')], outstanding = [(0, 0, ''seq/render001.png'')],
      drawWaiting = [], initWaiting = Some 0\<rparr>"

section \<open>Properties\<close>

subsection \<open>Rounding to a double\<close>

lemma pow2_pos [simp]: "0 < pow2 k"
  by (simp add: pow2_def)

lemma pow2_add: "pow2 (a + b) = pow2 a * pow2 b"
  by (simp add: pow2_def power_int_add)

lemma pow2_diff: "pow2 (a - b) = pow2 a / pow2 b"
  by (simp add: pow2_def power_int_diff)

lemma pow2_nat: "0 \<le> k \<Longrightarrow> pow2 k = of_int (2 ^ nat k)"
  by (simp add: pow2_def power_int_def)

lemma pow2_neg: "k \<le> 0 \<Longrightarrow> pow2 k = 1 / 2 ^ nat (- k)"
  by (cases "k = 0") (simp_all add: pow2_def power_int_def inverse_eq_divide power_one_over)

lemma pow2_mono: "a \<le> b \<Longrightarrow> pow2 a \<le> pow2 b"
  by (simp add: pow2_def power_int_increasing)

lemma pow2_strict_mono: "a < b \<Longrightarrow> pow2 a < pow2 b"
  by (simp add: pow2_def power_int_strict_increasing)

lemma binade_bounds:
  assumes "0 < x"
  shows "pow2 (binade x) \<le> x \<and> x < pow2 (binade x + 1)"
proof (cases "1 \<le> x")
  case True
  define n where "n = \<lfloor>x\<rfloor>"
  define b where "b = bitlen n"
  have n: "0 < n" "of_int n \<le> x" "x < of_int n + 1" using True by (simp_all add: n_def)
  have bb: "2 ^ nat (b - 1) \<le> n" "n < 2 ^ nat b"
    using bitlen_bounds [OF n(1)] by (simp_all add: b_def)
  have b1: "1 \<le> b" using n(1) by (simp add: b_def bitlen_alt_def)
  have e: "binade x = b - 1" using True by (simp add: binade_def n_def b_def)
  have "pow2 (b - 1) = of_int (2 ^ nat (b - 1))" using b1 by (simp add: pow2_nat)
  also have "\<dots> \<le> of_int n" using bb(1) by (simp only: of_int_le_iff)
  finally have lo: "pow2 (b - 1) \<le> x" using n(2) by simp
  have "n + 1 \<le> 2 ^ nat b" using bb(2) by simp
  then have "of_int (n + 1) \<le> (of_int (2 ^ nat b) :: real)" by (simp only: of_int_le_iff)
  moreover have "pow2 b = of_int (2 ^ nat b)" using b1 by (simp add: pow2_nat)
  ultimately have hi: "x < pow2 b" using n(3) by simp
  show ?thesis using lo hi by (simp add: e)
next
  case False
  define y where "y = 1 / x"
  define m where "m = \<lceil>y\<rceil> - 1"
  define b where "b = bitlen m"
  have y1: "1 < y" using False assms by (simp add: y_def)
  have m: "of_int m < y" "y \<le> of_int m + 1" by (simp_all add: m_def) linarith+
  have m0: "0 < m" using y1 m(2) by linarith
  have bb: "2 ^ nat (b - 1) \<le> m" "m < 2 ^ nat b"
    using bitlen_bounds [OF m0] by (simp_all add: b_def)
  have b1: "1 \<le> b" using m0 by (simp add: b_def bitlen_alt_def)
  have e: "binade x = - b" using False by (simp add: binade_def y_def m_def b_def)
  have x: "x = 1 / y" using assms by (simp add: y_def)
  have "m + 1 \<le> 2 ^ nat b" using bb(2) by simp
  then have "of_int (m + 1) \<le> (of_int (2 ^ nat b) :: real)" by (simp only: of_int_le_iff)
  then have "y \<le> 2 ^ nat b" using m(2) by simp
  then have "1 / 2 ^ nat b \<le> 1 / y" using y1 by (intro divide_left_mono) simp_all
  moreover have "pow2 (- b) = 1 / 2 ^ nat b" using b1 by (simp add: pow2_neg)
  ultimately have lo: "pow2 (- b) \<le> x" using x by simp
  have "(2::real) ^ nat (b - 1) \<le> of_int m" using bb(1) by simp
  then have "2 ^ nat (b - 1) < y" using m(1) by linarith
  then have "1 / y < 1 / 2 ^ nat (b - 1)" using y1 by (intro divide_strict_left_mono) simp_all
  moreover have "pow2 (- b + 1) = 1 / 2 ^ nat (b - 1)"
    using b1 pow2_neg [of "- b + 1"] by simp
  ultimately have hi: "x < pow2 (- b + 1)" using x by simp
  show ?thesis using lo hi by (simp add: e)
qed

lemma roundEven_near: "\<bar>y - of_int (roundEven y)\<bar> \<le> 1 / 2"
proof -
  have "of_int \<lfloor>y\<rfloor> \<le> y" "y < of_int \<lfloor>y\<rfloor> + 1" by linarith+
  then show ?thesis by (auto simp: roundEven_def Let_def)
qed

lemma roundEven_nearest: "\<bar>y - of_int (roundEven y)\<bar> \<le> \<bar>y - of_int n\<bar>"
proof (cases "n = roundEven y")
  case True
  then show ?thesis by simp
next
  case False
  then have "1 \<le> \<bar>n - roundEven y\<bar>" by linarith
  then have "(1::real) \<le> \<bar>of_int n - of_int (roundEven y)\<bar>"
    by (metis of_int_1_le_iff of_int_abs of_int_diff)
  then show ?thesis using roundEven_near [of y] by linarith
qed

lemma roundEven_of_int [simp]: "roundEven (of_int n) = n"
  by (simp add: roundEven_def)

lemma roundEven_bound:
  assumes "\<bar>y\<bar> \<le> of_int N"
  shows "\<bar>roundEven y\<bar> \<le> N"
proof (rule ccontr)
  assume "\<not> \<bar>roundEven y\<bar> \<le> N"
  then consider "N + 1 \<le> roundEven y" | "roundEven y \<le> - N - 1" by linarith
  then show False
  proof cases
    case 1
    then have "of_int (N + 1) \<le> (of_int (roundEven y) :: real)" by (simp only: of_int_le_iff)
    then show False using roundEven_nearest [of y N] assms by (simp; linarith)
  next
    case 2
    then have "(of_int (roundEven y) :: real) \<le> of_int (- N - 1)" by (simp only: of_int_le_iff)
    then show False using roundEven_nearest [of y "- N"] assms by (simp; linarith)
  qed
qed


lemma toDouble_zero [simp]: "toDouble 0 = 0"
  by (simp add: toDouble_def)

lemma pow2_split: "pow2 a = pow2 b * pow2 (a - b)"
  by (simp add: pow2_add [symmetric])

lemma abs_scale:
  fixes u :: real
  assumes "0 < u"
  shows "\<bar>x - c * u\<bar> = \<bar>x / u - c\<bar> * u"
proof -
  have "u \<noteq> 0" using assms by simp
  then have "x - c * u = (x / u - c) * u" by (simp add: left_diff_distrib)
  then have "\<bar>x - c * u\<bar> = \<bar>x / u - c\<bar> * \<bar>u\<bar>" by (simp only: abs_mult)
  then show ?thesis using assms by simp
qed

text \<open>The rounded value is nearest among the multiples of the unit in the last place.\<close>

lemma toDouble_near_grid:
  assumes "x \<noteq> 0" and "u = pow2 (max (binade \<bar>x\<bar>) (- 1022) - 52)"
  shows "\<bar>x - toDouble x\<bar> \<le> \<bar>x - of_int n * u\<bar>"
proof -
  have u: "0 < u" by (simp add: assms(2))
  have t: "toDouble x = of_int (roundEven (x / u)) * u"
    using assms by (simp add: toDouble_def Let_def)
  have "\<bar>x - toDouble x\<bar> = \<bar>x / u - of_int (roundEven (x / u))\<bar> * u"
    unfolding t using u by (rule abs_scale)
  also have "\<dots> \<le> \<bar>x / u - of_int n\<bar> * u"
    using u roundEven_nearest [of "x / u" n] by (intro mult_right_mono) simp_all
  also have "\<dots> = \<bar>x - of_int n * u\<bar>"
    using u by (rule abs_scale [symmetric])
  finally show ?thesis .
qed

lemma pow2_52: "pow2 52 = 4503599627370496" and pow2_53: "pow2 53 = 9007199254740992"
  by (simp_all add: pow2_def)

text \<open>It is nearest among all doubles: 53 bits of mantissa, exponent not below -1074.\<close>

lemma toDouble_nearest:
  assumes "\<bar>m\<bar> < 2 ^ 53" and "- 1074 \<le> k"
  shows "\<bar>x - toDouble x\<bar> \<le> \<bar>x - of_int m * pow2 k\<bar>"
proof (cases "x = 0")
  case True
  then show ?thesis by simp
next
  case False
  define e where "e = max (binade \<bar>x\<bar>) (- 1022)"
  define u where "u = pow2 (e - 52)"
  note grid = toDouble_near_grid [OF False, of u, unfolded e_def [symmetric], OF u_def]
  show ?thesis
  proof (cases "e - 52 \<le> k")
    case True
    define j where "j = k - (e - 52)"
    have "pow2 k = u * pow2 j"
      unfolding u_def j_def by (rule pow2_split)
    also have "pow2 j = of_int (2 ^ nat j)"
      using True by (simp add: pow2_nat j_def)
    finally have "of_int (m * 2 ^ nat j) * u = of_int m * pow2 k"
      by (simp only: of_int_mult mult.assoc mult.commute [of u])
    then show ?thesis using grid [of "m * 2 ^ nat j"] by (simp only:)
  next
    case below: False
    then have e: "e = binade \<bar>x\<bar>" using assms(2) by (simp add: e_def)
    have lo: "pow2 e \<le> \<bar>x\<bar>" using binade_bounds [of "\<bar>x\<bar>"] False by (simp add: e)
    have "\<bar>of_int m * pow2 k\<bar> = \<bar>real_of_int m\<bar> * pow2 k" by (simp add: abs_mult abs_of_pos)
    also have "\<dots> < 2 ^ 53 * pow2 k"
    proof -
      have "\<bar>real_of_int m\<bar> < 2 ^ 53" using assms(1) by (simp flip: of_int_abs)
      then show ?thesis by (intro mult_strict_right_mono) simp_all
    qed
    also have "\<dots> \<le> 2 ^ 53 * pow2 (e - 53)"
      using below by (intro mult_left_mono pow2_mono) simp_all
    also have "\<dots> = pow2 e"
      using pow2_split [of e 53] by (simp add: pow2_53)
    finally have d: "\<bar>of_int m * pow2 k\<bar> < pow2 e" .
    have b: "pow2 e = of_int (2 ^ 52) * u"
      using pow2_split [of e 52] by (simp add: u_def pow2_52)
    show ?thesis
    proof (cases "0 < x")
      case True
      have "\<bar>x - toDouble x\<bar> \<le> \<bar>x - of_int (2 ^ 52) * u\<bar>" by (rule grid)
      then show ?thesis using True lo d unfolding b [symmetric] by linarith
    next
      case neg: False
      have "\<bar>x - toDouble x\<bar> \<le> \<bar>x - of_int (- (2 ^ 52)) * u\<bar>" by (rule grid)
      then have "\<bar>x - toDouble x\<bar> \<le> \<bar>x + pow2 e\<bar>" using b by simp
      then show ?thesis using neg False lo d by linarith
    qed
  qed
qed

text \<open>The rounded value is itself a double.\<close>

lemma toDouble_double:
  "\<exists>m k. toDouble x = of_int m * pow2 k \<and> \<bar>m\<bar> < 2 ^ 53 \<and> - 1074 \<le> k"
proof (cases "x = 0")
  case True
  have "toDouble x = of_int 0 * pow2 0 \<and> \<bar>0::int\<bar> < 2 ^ 53 \<and> - 1074 \<le> (0::int)"
    using True by simp
  then show ?thesis by blast
next
  case False
  define e where "e = max (binade \<bar>x\<bar>) (- 1022)"
  define u where "u = pow2 (e - 52)"
  define n where "n = roundEven (x / u)"
  have u: "0 < u" by (simp add: u_def)
  have t: "toDouble x = of_int n * u"
    using False by (simp add: toDouble_def Let_def n_def u_def e_def)
  have "\<bar>x\<bar> < pow2 (binade \<bar>x\<bar> + 1)" using binade_bounds [of "\<bar>x\<bar>"] False by simp
  also have "\<dots> \<le> pow2 (e + 1)" by (intro pow2_mono) (simp add: e_def)
  also have "\<dots> = 2 ^ 53 * u" using pow2_split [of "e + 1" 53] by (simp add: u_def pow2_53)
  finally have "\<bar>x / u\<bar> < 2 ^ 53" using u by (simp add: abs_divide [simplified] pos_divide_less_eq)
  then have "\<bar>x / u\<bar> \<le> of_int (2 ^ 53)" by simp
  then have n53: "\<bar>n\<bar> \<le> 2 ^ 53" unfolding n_def by (rule roundEven_bound)
  have k: "- 1074 \<le> e - 52" "- 1074 \<le> e - 51" by (simp_all add: e_def)
  consider "\<bar>n\<bar> < 2 ^ 53" | "n = 2 ^ 53" | "n = - (2 ^ 53)" using n53 by linarith
  then show ?thesis
  proof cases
    case 1
    then show ?thesis using t k(1) unfolding u_def by blast
  next
    case 2
    have "pow2 (e - 51) = 2 * u"
      using pow2_split [of "e - 51" 1] by (simp add: u_def pow2_def)
    then have "toDouble x = of_int (2 ^ 52) * pow2 (e - 51)"
      by (simp add: t 2)
    moreover have "\<bar>2 ^ 52 :: int\<bar> < 2 ^ 53" by simp
    ultimately show ?thesis using k(2) by blast
  next
    case 3
    have "pow2 (e - 51) = 2 * u"
      using pow2_split [of "e - 51" 1] by (simp add: u_def pow2_def)
    then have "toDouble x = of_int (- (2 ^ 52)) * pow2 (e - 51)"
      by (simp add: t 3)
    moreover have "\<bar>- (2 ^ 52) :: int\<bar> < 2 ^ 53" by simp
    ultimately show ?thesis using k(2) by blast
  qed
qed

text \<open>Rounding is monotone, and leaves a double as it is.\<close>

lemma toDouble_mono:
  assumes "x \<le> y"
  shows "toDouble x \<le> toDouble y"
proof (rule ccontr)
  assume "\<not> toDouble x \<le> toDouble y"
  then have lt: "toDouble y < toDouble x" by simp
  obtain m k where dx: "toDouble x = of_int m * pow2 k" "\<bar>m\<bar> < 2 ^ 53" "- 1074 \<le> k"
    using toDouble_double [of x] by blast
  obtain m' k' where dy: "toDouble y = of_int m' * pow2 k'" "\<bar>m'\<bar> < 2 ^ 53" "- 1074 \<le> k'"
    using toDouble_double [of y] by blast
  have a: "\<bar>x - toDouble x\<bar> \<le> \<bar>x - toDouble y\<bar>"
    unfolding dy(1) using dy(2,3) by (rule toDouble_nearest)
  have b: "\<bar>y - toDouble y\<bar> \<le> \<bar>y - toDouble x\<bar>"
    unfolding dx(1) using dx(2,3) by (rule toDouble_nearest)
  have "x = y" using a b lt assms by linarith
  then show False using lt by simp
qed

lemma toDouble_exact:
  assumes "\<bar>m\<bar> < 2 ^ 53" and "- 1074 \<le> k"
  shows "toDouble (of_int m * pow2 k) = of_int m * pow2 k"
  using toDouble_nearest [OF assms, of "of_int m * pow2 k"] by simp

lemma toDouble_of_int:
  assumes "\<bar>n\<bar> \<le> 2 ^ 53"
  shows "toDouble (of_int n) = of_int n"
proof (cases "\<bar>n\<bar> < 2 ^ 53")
  case True
  then show ?thesis using toDouble_exact [of n 0] by (simp add: pow2_def)
next
  case False
  then consider "n = 2 ^ 53" | "n = - (2 ^ 53)" using assms by linarith
  then show ?thesis
  proof cases
    case 1
    then show ?thesis using toDouble_exact [of "2 ^ 52" 1] by (simp add: pow2_def)
  next
    case 2
    then show ?thesis using toDouble_exact [of "- (2 ^ 52)" 1] by (simp add: pow2_def)
  qed
qed

lemma toDouble_nonneg: "0 \<le> x \<Longrightarrow> 0 \<le> toDouble x"
  using toDouble_mono [of 0 x] by simp

lemma toDouble_nonpos: "x \<le> 0 \<Longrightarrow> toDouble x \<le> 0"
  using toDouble_mono [of x 0] by simp

lemma toDouble_le_int: "x \<le> of_int n \<Longrightarrow> \<bar>n\<bar> \<le> 2 ^ 53 \<Longrightarrow> toDouble x \<le> of_int n"
  using toDouble_mono [of x "of_int n"] by (simp add: toDouble_of_int)

lemma jsInt_exact: "\<bar>n\<bar> \<le> 2 ^ 53 \<Longrightarrow> jsInt n = n"
  by (simp add: jsInt_def toDouble_of_int)

lemma jsInt_mono: "a \<le> b \<Longrightarrow> jsInt a \<le> jsInt b"
  unfolding jsInt_def by (intro floor_mono toDouble_mono) simp

lemma jsDiv_mono:
  assumes "0 < r" and "a \<le> b"
  shows "jsDiv a r \<le> jsDiv b r"
  unfolding jsDiv_def using assms by (intro toDouble_mono divide_right_mono) simp_all

lemma jsMul_zero [simp]: "jsMul 0 x = 0"
  by (simp add: jsMul_def)

lemma jsMul_mono:
  assumes "0 \<le> c" and "p \<le> q"
  shows "jsMul p c \<le> jsMul q c"
  unfolding jsMul_def using assms by (intro toDouble_mono mult_right_mono)

subsection \<open>Decimal rendering and substitution\<close>













lemma replicate_small: "replicate 1 c = [c]" "replicate 2 c = [c, c]" "replicate 3 c = [c, c, c]"
  by (simp_all add: numeral_2_eq_2 numeral_3_eq_3)

subsection \<open>What each method leaves alone\<close>

lemma untouchedD:
  assumes "untouched a = untouched b"
  shows "sequenceName a = sequenceName b \<and> startFrame a = startFrame b \<and>
    endFrame a = endFrame b \<and> totalFrames a = totalFrames b \<and> pattern a = pattern b \<and>
    padding a = padding b \<and> framesPerYear a = framesPerYear b \<and> startYear a = startYear b \<and>
    hasYearIndicator a = hasYearIndicator b \<and> yearValueEl a = yearValueEl b \<and>
    countriesListEl a = countriesListEl b \<and> currentYear a = currentYear b \<and>
    images a = images b \<and> currentFrame a = currentFrame b \<and> overlay a = overlay b \<and>
    bufferSize a = bufferSize b \<and> initialized a = initialized b \<and> ctx a = ctx b \<and>
    scrollBound a = scrollBound b \<and> inView a = inView b \<and>
    overlayVisible a = overlayVisible b \<and> yearLog a = yearLog b \<and>
    initWaiting a = initWaiting b"
  using assms by (simp add: untouched_def)

lemma untouched_imageAt: "untouched a = untouched b \<Longrightarrow> imageAt a i = imageAt b i"
  by (simp add: untouched_def imageAt_def)

lemma untouched_getFrameSrc: "untouched a = untouched b \<Longrightarrow> getFrameSrc a i = getFrameSrc b i"
  by (simp add: untouched_def getFrameSrc_def frameNum_def)

lemma untouched_loadFrame: "untouched (fst (loadFrame s i)) = untouched s"
  by (simp add: loadFrame_def Let_def untouched_def)

lemma loadFrame_canvas:
  "canvasLog (fst (loadFrame s i)) = canvasLog s \<and> drawWaiting (fst (loadFrame s i)) = drawWaiting s"
  by (simp add: loadFrame_def Let_def)

lemma preloadLoop_step:
  "i \<le> endI \<Longrightarrow> preloadLoop s i endI =
     preloadLoop (if imageAt s i = None \<and> i \<notin> loadingFrames s then fst (loadFrame s i) else s)
       (i + 1) endI"
  by (subst preloadLoop.simps) simp

lemma preloadLoop_done: "\<not> i \<le> endI \<Longrightarrow> preloadLoop s i endI = s"
  by (subst preloadLoop.simps) simp

lemma untouched_preloadLoop:
  "untouched (preloadLoop s i endI) = untouched s \<and>
   canvasLog (preloadLoop s i endI) = canvasLog s \<and>
   drawWaiting (preloadLoop s i endI) = drawWaiting s"
proof (induction s i endI rule: preloadLoop.induct)
  case (1 s i endI)
  show ?case
  proof (cases "i \<le> endI")
    case False
    then show ?thesis by (simp add: preloadLoop_done)
  next
    case True
    let ?s1 = "if imageAt s i = None \<and> i \<notin> loadingFrames s then fst (loadFrame s i) else s"
    have a: "untouched ?s1 = untouched s \<and> canvasLog ?s1 = canvasLog s \<and>
        drawWaiting ?s1 = drawWaiting s"
      by (simp add: untouched_loadFrame loadFrame_canvas)
    have b: "preloadLoop s i endI = preloadLoop ?s1 (i + 1) endI"
      using True by (rule preloadLoop_step)
    show ?thesis unfolding b using 1[OF True] a by simp
  qed
qed

lemma untouched_preloadBuffer:
  "untouched (preloadBuffer s c) = untouched s \<and>
   canvasLog (preloadBuffer s c) = canvasLog s \<and>
   drawWaiting (preloadBuffer s c) = drawWaiting s"
  by (simp add: preloadBuffer_def Let_def untouched_preloadLoop)

lemma untouched_paint: "untouched (paint s im) = untouched s"
  by (simp add: paint_def untouched_def)

lemma untouched_drawResume: "untouched (drawResume s r) = untouched s"
  by (simp add: drawResume_def Let_def untouched_paint split: option.split)

lemma drawFrame_alt:
  "drawFrame s i =
     (if \<not> ctx s then s
      else case imageAt s i of
        Some im \<Rightarrow> paint s im
      | None \<Rightarrow>
          (case snd (loadFrame s i) of
             Settled r \<Rightarrow> drawResume (fst (loadFrame s i)) r
           | Pending rid \<Rightarrow>
               (fst (loadFrame s i))\<lparr>drawWaiting := drawWaiting (fst (loadFrame s i)) @ [rid]\<rparr>))"
  by (cases "loadFrame s i") (simp add: drawFrame_def split: option.split loaded.split)

lemma untouched_drawWaiting: "untouched (s\<lparr>drawWaiting := dw\<rparr>) = untouched s"
  by (simp add: untouched_def)

lemma untouched_drawFrame: "untouched (drawFrame s i) = untouched s"
  by (simp add: drawFrame_alt untouched_paint untouched_drawResume untouched_loadFrame
      untouched_drawWaiting split: option.split loaded.split)


lemmas preloadBuffer_fields = untouchedD [OF conjunct1 [OF untouched_preloadBuffer]]

lemmas drawFrame_fields = untouchedD [OF untouched_drawFrame]

subsection \<open>Facts about the concrete pages and the frame number\<close>

lemma toString_1: "toString 1 = ''1''"
  by (simp add: toString_def digitsOf.simps digitChar_def)

lemma construct_longPage: "construct longPage = Inr longPlayer"
  by code_simp



lemma digitsOf_nonempty: "0 < length (digitsOf n)"
  by (subst digitsOf.simps) simp

subsection \<open>Claim C3: frame addressing\<close>




subsection \<open>The concrete pages, evaluated\<close>

lemma construct_smallPage: "construct smallPage = Inr smallStart"
  by code_simp

lemma construct_heroPage: "construct heroPage = Inr heroStart"
  by code_simp

lemma smallStart_loaded: "imgOnload smallStart 0 = smallReady"
  by code_simp

lemma smallReady_loaded: "imgOnload (imgOnload smallReady 1) 2 = smallFull"
  by code_simp

lemma smallFull_scrolled: "onScroll smallFull (- 100) 500 700 600 = Some smallAtEnd"
  by code_simp

lemma reachable_smallStart: "reachable smallStart"
  using construct_smallPage by (rule reachable.constructed)

lemma reachable_smallReady: "reachable smallReady"
  using reachable.loaded [OF reachable_smallStart, of 0] by (simp add: smallStart_loaded)

lemma reachable_smallFull: "reachable smallFull"
proof -
  have "reachable (imgOnload (imgOnload smallReady 1) 2)"
    by (intro reachable.loaded reachable_smallReady)
  then show ?thesis by (simp only: smallReady_loaded)
qed

lemma reachable_smallAtEnd: "reachable smallAtEnd"
proof -
  have "scrollBound smallFull" by (simp add: smallFull_def)
  with reachable_smallFull show ?thesis using smallFull_scrolled by (rule reachable.scrolled)
qed

lemma reachable_heroReady: "reachable (imgOnload heroStart 0)"
  using construct_heroPage by (intro reachable.loaded reachable.constructed)

subsection \<open>The scroll handler\<close>


lemma scrollFrameIndex_inView: "scrollFrameIndex (s\<lparr>inView := b\<rparr>) p = scrollFrameIndex s p"
  by (simp add: scrollFrameIndex_def)

lemma onScroll_in_range_currentFrame:
  assumes "initialized s" and "\<not> (hasYearIndicator s \<and> framesPerYear s = 0)"
    and "0 \<le> - rectTop" and "- rectTop \<le> sectionHeight - viewportHeight"
    and "sectionHeight - viewportHeight \<noteq> 0"
  shows "\<exists>s'. onScroll s rectTop rectBottom sectionHeight viewportHeight = Some s' \<and>
    currentFrame s' =
      scrollFrameIndex s (scrollProgress (- rectTop) (sectionHeight - viewportHeight))"
  using assms
  by (simp add: onScroll_def Let_def updateOverlay_def updateYearIndicator_def
      scrollFrameIndex_inView preloadBuffer_fields drawFrame_fields)

lemma scrollProgress_mono:
  assumes "0 < r" and "a \<le> b"
  shows "scrollProgress a r \<le> scrollProgress b r"
proof -
  have "jsDiv a r \<le> jsDiv b r" using assms by (rule jsDiv_mono)
  then show ?thesis by (auto simp: scrollProgress_def max_def min_def)
qed

lemma scrollProgress_nonneg: "0 \<le> scrollProgress a r"
  by (simp add: scrollProgress_def)

lemma scrollFrameIndex_mono:
  assumes "1 \<le> totalFrames s" and "p \<le> q"
  shows "scrollFrameIndex s p \<le> scrollFrameIndex s q"
proof -
  have "jsInt 0 \<le> jsInt (totalFrames s - 1)" using assms(1) by (intro jsInt_mono) simp
  then have "0 \<le> real_of_int (jsInt (totalFrames s - 1))" by (simp add: jsInt_exact)
  then have "jsMul p (real_of_int (jsInt (totalFrames s - 1))) \<le>
      jsMul q (real_of_int (jsInt (totalFrames s - 1)))"
    using assms(2) by (rule jsMul_mono)
  then show ?thesis unfolding scrollFrameIndex_def by (rule floor_mono)
qed

subsection \<open>Claim C1: scroll position to progress and frame\<close>

text \<open>
  The rounding is visible on plain pixel values: at \<open>scrollStart = 10\<close> of
  \<open>scrollRange = 4790\<close> with 480 frames the product is just below 1 and the frame is 0,
  where exact arithmetic would give 1.
\<close>

lemma rounded_product_example: "\<lfloor>jsMul (jsDiv 10 4790) 479\<rfloor> = 0"
  by code_simp



subsection \<open>Claim C7: the mapping is monotone\<close>

text \<open>
  Claim C7, as amended. For a player with at least one frame and scroll positions
  \<open>a < b\<close>, both in \<open>[0, scrollRange]\<close>, the frame the handler selects at \<open>a\<close> is at most
  the frame it selects at \<open>b\<close>.
\<close>

theorem scroll_to_frame_monotone:
  assumes "initialized s" and "\<not> (hasYearIndicator s \<and> framesPerYear s = 0)"
    and "1 \<le> totalFrames s"
    and "scrollRange = sectionHeight - viewportHeight"
    and "0 \<le> a" and "a < b" and "b \<le> scrollRange"
  shows "\<exists>sa sb. onScroll s (- a) rectBottomA sectionHeight viewportHeight = Some sa \<and>
    onScroll s (- b) rectBottomB sectionHeight viewportHeight = Some sb \<and>
    currentFrame sa = scrollFrameIndex s (scrollProgress a scrollRange) \<and>
    currentFrame sb = scrollFrameIndex s (scrollProgress b scrollRange) \<and>
    currentFrame sa \<le> currentFrame sb"
proof -
  have r: "0 < scrollRange" using assms(5-7) by simp
  obtain sa where sa: "onScroll s (- a) rectBottomA sectionHeight viewportHeight = Some sa"
    "currentFrame sa = scrollFrameIndex s (scrollProgress a scrollRange)"
    using onScroll_in_range_currentFrame [of s "- a" sectionHeight viewportHeight rectBottomA]
      assms r by auto
  obtain sb where sb: "onScroll s (- b) rectBottomB sectionHeight viewportHeight = Some sb"
    "currentFrame sb = scrollFrameIndex s (scrollProgress b scrollRange)"
    using onScroll_in_range_currentFrame [of s "- b" sectionHeight viewportHeight rectBottomB]
      assms r by auto
  have "scrollProgress a scrollRange \<le> scrollProgress b scrollRange"
    using r assms(6) by (intro scrollProgress_mono) simp_all
  then have "currentFrame sa \<le> currentFrame sb"
    unfolding sa(2) sb(2) using assms(3) by (intro scrollFrameIndex_mono)
  with sa sb show ?thesis by blast
qed

text \<open>
  Claim C7, an instance: in the three-frame player with scroll range 100, position 40 selects
  frame 0 and position 100 selects frame 2.
\<close>

theorem scroll_to_frame_monotone_witness:
  "initialized smallFull \<and> 1 \<le> totalFrames smallFull \<and> (0::real) \<le> 40 \<and> (40::real) < 100 \<and>
   map_option currentFrame (onScroll smallFull (- 40) 560 700 600) = Some 0 \<and>
   map_option currentFrame (onScroll smallFull (- 100) 500 700 600) = Some 2"
proof -
  have h1: "initialized smallFull" by (simp add: smallFull_def)
  have h2: "\<not> (hasYearIndicator smallFull \<and> framesPerYear smallFull = 0)"
    by (simp add: smallFull_def)
  have h3: "1 \<le> totalFrames smallFull" by (simp add: smallFull_def)
  have h4: "(100::real) = 700 - 600" "(0::real) \<le> 40" "(40::real) < 100" "(100::real) \<le> 100"
    by simp_all
  have f: "scrollFrameIndex smallFull (scrollProgress 40 100) = 0"
    "scrollFrameIndex smallFull (scrollProgress 100 100) = 2"
    by code_simp+
  from scroll_to_frame_monotone [OF h1 h2 h3 h4, of 560 500]
  show ?thesis using h1 h3 f by auto
qed

text \<open>
  Claim C7 as stated fails for a sequence without frames. The constructor accepts
  \<open>data-start="5"\<close> and \<open>data-end="4"\<close>, so \<open>totalFrames = 0\<close> and the factor
  \<open>totalFrames - 1\<close> is negative: with scroll range 100 the handler selects frame 0 at
  position 0 and frame \<open>-1\<close> at position 100.
\<close>

theorem scroll_to_frame_not_monotone_counterexample:
  "construct emptyPage = Inr emptyPlayer \<and> reachable emptyPlayer \<and>
   initialized emptyPlayer \<and> totalFrames emptyPlayer = 0 \<and>
   (0::real) < 100 \<and> (100::real) \<le> 700 - 600 \<and>
   map_option currentFrame (onScroll emptyPlayer (- 0) 700 700 600) = Some 0 \<and>
   map_option currentFrame (onScroll emptyPlayer (- 100) 600 700 600) = Some (- 1)"
proof -
  have c: "construct emptyPage = Inr emptyPlayer" by code_simp
  then have "reachable emptyPlayer" by (rule reachable.constructed)
  moreover have "initialized emptyPlayer \<and> totalFrames emptyPlayer = 0 \<and>
   (0::real) < 100 \<and> (100::real) \<le> 700 - 600 \<and>
   map_option currentFrame (onScroll emptyPlayer (- 0) 700 700 600) = Some 0 \<and>
   map_option currentFrame (onScroll emptyPlayer (- 100) 600 700 600) = Some (- 1)"
    by code_simp
  ultimately show ?thesis using c by simp
qed

subsection \<open>Claim C10: indices outside the sequence\<close>

text \<open>
  Claim C10. \<open>loadFrame\<close> with an index below 0 or not below \<open>totalFrames\<close> answers
  \<open>null\<close> at once and returns the player as it was: no request started, no cache slot and no
  in-flight marker changed.
\<close>

theorem loadFrame_out_of_range:
  assumes "i < 0 \<or> totalFrames s \<le> i"
  shows "loadFrame s i = (s, Settled None)"
  using assms by (simp add: loadFrame_def)

text \<open>
  Claim C10, two instances: indices \<open>-1\<close> and 3 of the three-frame player with two
  requests pending.
\<close>

theorem loadFrame_out_of_range_witness:
  "totalFrames smallReady \<le> 3 \<and> loadFrame smallReady 3 = (smallReady, Settled None) \<and>
   loadFrame smallReady (- 1) = (smallReady, Settled None)"
proof -
  have h: "(3::int) < 0 \<or> totalFrames smallReady \<le> 3" by (simp add: smallReady_def)
  have h': "(- 1::int) < 0 \<or> totalFrames smallReady \<le> - 1" by simp
  show ?thesis
    using h loadFrame_out_of_range [OF h] loadFrame_out_of_range [OF h'] by simp
qed

subsection \<open>Claim C9: at and before the top of the section\<close>

lemma scrollProgress_before:
  assumes "0 < r" and "a \<le> 0"
  shows "scrollProgress a r = 0"
proof -
  have "a / r \<le> 0" using assms by (simp add: divide_nonpos_pos)
  then have "jsDiv a r \<le> 0" unfolding jsDiv_def by (rule toDouble_nonpos)
  then show ?thesis by (auto simp: scrollProgress_def max_def min_def)
qed

lemma scrollFrameIndex_zero: "scrollFrameIndex s 0 = 0"
  by (simp add: scrollFrameIndex_def)

lemma onScroll_before:
  assumes "initialized s" and "- rectTop < 0"
  shows "onScroll s rectTop rectBottom sectionHeight viewportHeight =
    Some (updateOverlay (s\<lparr>inView := (rectTop < viewportHeight \<and> rectBottom > 0)\<rparr>) False)"
  using assms by (simp add: onScroll_def Let_def)

text \<open>
  Claim C9, as amended. For \<open>scrollStart \<le> 0\<close> and a positive \<open>scrollRange\<close> the mapping
  gives progress 0 and frame 0, and a handler invocation at \<open>scrollStart = 0\<close> makes frame 0
  current. For \<open>scrollStart < 0\<close>, whatever \<open>scrollRange\<close> is, the handler hides the overlay
  and returns with \<open>currentFrame\<close>, the cache, the in-flight set, the requests and the canvas
  as they were.
\<close>

theorem onScroll_at_or_before_top:
  assumes "initialized s" and "\<not> (hasYearIndicator s \<and> framesPerYear s = 0)"
    and "scrollStart = - rectTop" and "scrollRange = sectionHeight - viewportHeight"
    and "scrollStart \<le> 0"
  shows "(0 < scrollRange \<longrightarrow>
       scrollProgress scrollStart scrollRange = 0 \<and>
       scrollFrameIndex s (scrollProgress scrollStart scrollRange) = 0) \<and>
    (0 < scrollRange \<and> scrollStart = 0 \<longrightarrow>
       (\<exists>s'. onScroll s rectTop rectBottom sectionHeight viewportHeight = Some s' \<and>
          currentFrame s' = 0)) \<and>
    (scrollStart < 0 \<longrightarrow>
       (\<exists>s'. onScroll s rectTop rectBottom sectionHeight viewportHeight = Some s' \<and>
          currentFrame s' = currentFrame s \<and> images s' = images s \<and>
          loadingFrames s' = loadingFrames s \<and> fetchLog s' = fetchLog s \<and>
          outstanding s' = outstanding s \<and> canvasLog s' = canvasLog s \<and>
          yearLog s' = yearLog s \<and> (overlay s \<longrightarrow> \<not> overlayVisible s')))"
proof -
  have a: "scrollProgress scrollStart scrollRange = 0 \<and>
      scrollFrameIndex s (scrollProgress scrollStart scrollRange) = 0" if "0 < scrollRange"
    using that assms(5) by (simp add: scrollProgress_before scrollFrameIndex_zero)
  have b: "\<exists>s'. onScroll s rectTop rectBottom sectionHeight viewportHeight = Some s' \<and>
      currentFrame s' = 0" if "0 < scrollRange" "scrollStart = 0"
  proof -
    have "\<exists>s'. onScroll s rectTop rectBottom sectionHeight viewportHeight = Some s' \<and>
      currentFrame s' =
        scrollFrameIndex s (scrollProgress (- rectTop) (sectionHeight - viewportHeight))"
      using assms that by (intro onScroll_in_range_currentFrame) simp_all
    then show ?thesis
      using a [OF that(1)] that assms(3,4) by (simp add: scrollFrameIndex_zero)
  qed
  have c: "\<exists>s'. onScroll s rectTop rectBottom sectionHeight viewportHeight = Some s' \<and>
          currentFrame s' = currentFrame s \<and> images s' = images s \<and>
          loadingFrames s' = loadingFrames s \<and> fetchLog s' = fetchLog s \<and>
          outstanding s' = outstanding s \<and> canvasLog s' = canvasLog s \<and>
          yearLog s' = yearLog s \<and> (overlay s \<longrightarrow> \<not> overlayVisible s')"
    if "scrollStart < 0"
  proof -
    have "- rectTop < 0" using that assms(3) by simp
    with assms(1) show ?thesis by (simp add: onScroll_before updateOverlay_def)
  qed
  show ?thesis using a b c by blast
qed

text \<open>
  Claim C9, instances of the amended statement on the three-frame player after its scroll to
  the end: at \<open>scrollStart = 0\<close> the handler goes back to frame 0, at \<open>scrollStart = -50\<close>
  it leaves frame 2 current.
\<close>

theorem onScroll_at_or_before_top_witness:
  "initialized smallAtEnd \<and> currentFrame smallAtEnd = 2 \<and>
   scrollProgress 0 100 = 0 \<and> scrollProgress (- 50) 100 = 0 \<and>
   map_option currentFrame (onScroll smallAtEnd 0 700 700 600) = Some 0 \<and>
   map_option currentFrame (onScroll smallAtEnd 50 750 700 600) = Some 2 \<and>
   map_option canvasLog (onScroll smallAtEnd 50 750 700 600) = Some (canvasLog smallAtEnd)"
proof -
  have h1: "initialized smallAtEnd" by (simp add: smallAtEnd_def)
  have h2: "\<not> (hasYearIndicator smallAtEnd \<and> framesPerYear smallAtEnd = 0)"
    by (simp add: smallAtEnd_def)
  have cf: "currentFrame smallAtEnd = 2" by (simp add: smallAtEnd_def)
  have g0: "(0::real) = - 0" "(100::real) = 700 - 600" "(0::real) \<le> 0" by simp_all
  have g1: "(- 50::real) = - 50" "(100::real) = 700 - 600" "(- 50::real) \<le> 0" by simp_all
  from onScroll_at_or_before_top [OF h1 h2 g0, of 700]
  have a: "scrollProgress 0 100 = 0"
    "map_option currentFrame (onScroll smallAtEnd 0 700 700 600) = Some 0"
    by auto
  from onScroll_at_or_before_top [OF h1 h2 g1, of 750]
  have b: "scrollProgress (- 50) 100 = 0"
    "map_option currentFrame (onScroll smallAtEnd 50 750 700 600) = Some 2"
    "map_option canvasLog (onScroll smallAtEnd 50 750 700 600) = Some (canvasLog smallAtEnd)"
    using cf by auto
  show ?thesis using h1 cf a b by simp
qed

text \<open>
  Claim C9 as stated fails when the section is shorter than the viewport. With every frame
  of the three-frame player cached, a section of height 500 in a viewport of height 600 and
  \<open>rect.top = 0\<close>, that is \<open>scrollStart = 0\<close> and \<open>scrollRange = -100\<close>, the handler takes
  the branch \<open>scrollStart > scrollRange\<close> and paints the last frame, index 2, not frame 0.
\<close>

theorem onScroll_at_top_short_section_counterexample:
  "reachable smallFull \<and> initialized smallFull \<and> - (0::real) \<le> 0 \<and>
   imageAt smallFull 0 = Some (Image 0 ''seq/render001.png'') \<and>
   imageAt smallFull 2 = Some (Image 2 ''seq/render003.png'') \<and>
   map_option canvasLog (onScroll smallFull 0 500 500 600) =
     Some (canvasLog smallFull @ [Image 2 ''seq/render003.png''])"
proof -
  have "initialized smallFull \<and> - (0::real) \<le> 0 \<and>
   imageAt smallFull 0 = Some (Image 0 ''seq/render001.png'') \<and>
   imageAt smallFull 2 = Some (Image 2 ''seq/render003.png'') \<and>
   map_option canvasLog (onScroll smallFull 0 500 500 600) =
     Some (canvasLog smallFull @ [Image 2 ''seq/render003.png''])"
    by code_simp
  then show ?thesis using reachable_smallFull by simp
qed

subsection \<open>Claim C8: when the handler paints\<close>

lemma onScroll_uninitialized: "\<not> initialized s \<Longrightarrow> onScroll s t b h v = Some s"
  by (simp add: onScroll_def)

lemma onScroll_undefined:
  assumes "initialized s" and "0 \<le> - rectTop" and "- rectTop \<le> sectionHeight - viewportHeight"
    and "sectionHeight - viewportHeight = 0 \<or> (hasYearIndicator s \<and> framesPerYear s = 0)"
  shows "onScroll s rectTop rectBottom sectionHeight viewportHeight = None"
  using assms by (simp add: onScroll_def Let_def)

lemma onScroll_same_frame:
  assumes "initialized s" and "0 \<le> - rectTop" and "- rectTop \<le> sectionHeight - viewportHeight"
    and "\<not> (sectionHeight - viewportHeight = 0 \<or> (hasYearIndicator s \<and> framesPerYear s = 0))"
    and "scrollFrameIndex s (scrollProgress (- rectTop) (sectionHeight - viewportHeight)) =
      currentFrame s"
  shows "onScroll s rectTop rectBottom sectionHeight viewportHeight =
    Some (updateOverlay (s\<lparr>inView := (rectTop < viewportHeight \<and> rectBottom > 0)\<rparr>)
      (scrollProgress (- rectTop) (sectionHeight - viewportHeight) > toDouble 0.05 \<and>
       scrollProgress (- rectTop) (sectionHeight - viewportHeight) < toDouble 0.95))"
  using assms by (simp add: onScroll_def Let_def scrollFrameIndex_inView)

text \<open>
  Claim C8, as amended. In an invocation of the scroll handler with
  \<open>scrollStart \<le> scrollRange\<close>, nothing is painted on the canvas and no image is requested
  when \<open>scrollStart < 0\<close> or when the computed frame index equals \<open>currentFrame\<close>.
\<close>

theorem onScroll_paints_only_on_frame_change:
  assumes "scrollStart = - rectTop" and "scrollRange = sectionHeight - viewportHeight"
    and "scrollStart \<le> scrollRange"
    and "scrollStart < 0 \<or>
      scrollFrameIndex s (scrollProgress scrollStart scrollRange) = currentFrame s"
    and "onScroll s rectTop rectBottom sectionHeight viewportHeight = Some s'"
  shows "canvasLog s' = canvasLog s \<and> fetchLog s' = fetchLog s \<and>
    currentFrame s' = currentFrame s \<and> images s' = images s"
proof (cases "initialized s")
  case False
  then show ?thesis using assms(5) by (simp add: onScroll_uninitialized)
next
  case True
  show ?thesis
  proof (cases "scrollStart < 0")
    case before: True
    then have "- rectTop < 0" using assms(1) by simp
    then show ?thesis
      using True assms(5) by (auto simp: onScroll_before updateOverlay_def)
  next
    case False
    then have r: "0 \<le> - rectTop" "- rectTop \<le> sectionHeight - viewportHeight"
      and f: "scrollFrameIndex s (scrollProgress (- rectTop) (sectionHeight - viewportHeight)) =
        currentFrame s"
      using assms(1-4) by simp_all
    have d: "\<not> (sectionHeight - viewportHeight = 0 \<or>
        (hasYearIndicator s \<and> framesPerYear s = 0))"
      using onScroll_undefined [OF True r] assms(5) by auto
    from onScroll_same_frame [OF True r d f] assms(5)
    show ?thesis by (auto simp: updateOverlay_def)
  qed
qed

text \<open>
  Claim C8, an instance of the amended statement: the three-frame player at its last frame
  handles a second scroll to the end of the section and paints nothing.
\<close>

theorem onScroll_paints_only_on_frame_change_witness:
  "(100::real) \<le> 100 \<and>
   scrollFrameIndex smallAtEnd (scrollProgress 100 100) = currentFrame smallAtEnd \<and>
   map_option canvasLog (onScroll smallAtEnd (- 100) 500 700 600) = Some (canvasLog smallAtEnd)"
proof -
  have g: "(100::real) = - (- 100)" "(100::real) = 700 - 600" "(100::real) \<le> 100" by simp_all
  have f: "(100::real) < 0 \<or>
      scrollFrameIndex smallAtEnd (scrollProgress 100 100) = currentFrame smallAtEnd"
    by code_simp
  obtain s' where s': "onScroll smallAtEnd (- 100) 500 700 600 = Some s'"
    using onScroll_in_range_currentFrame [of smallAtEnd "- 100" 700 600 500]
    by (auto simp: smallAtEnd_def)
  from onScroll_paints_only_on_frame_change [OF g f s']
  show ?thesis using f s' by simp
qed

text \<open>
  Claim C8 as stated fails past the end of the section. The three-frame player has scrolled
  to the end, so \<open>currentFrame\<close> is the last frame, index 2, and the canvas shows it. A
  further scroll event with \<open>scrollStart = 150 > scrollRange = 100\<close> paints frame 2 again.
\<close>

theorem onScroll_past_end_repaints_counterexample:
  "reachable smallAtEnd \<and> currentFrame smallAtEnd = totalFrames smallAtEnd - 1 \<and>
   last (canvasLog smallAtEnd) = Image 2 ''seq/render003.png'' \<and>
   imageAt smallAtEnd 2 = Some (Image 2 ''seq/render003.png'') \<and>
   map_option canvasLog (onScroll smallAtEnd (- 150) 450 700 600) =
     Some (canvasLog smallAtEnd @ [Image 2 ''seq/render003.png''])"
proof -
  have "currentFrame smallAtEnd = totalFrames smallAtEnd - 1 \<and>
   last (canvasLog smallAtEnd) = Image 2 ''seq/render003.png'' \<and>
   imageAt smallAtEnd 2 = Some (Image 2 ''seq/render003.png'') \<and>
   map_option canvasLog (onScroll smallAtEnd (- 150) 450 700 600) =
     Some (canvasLog smallAtEnd @ [Image 2 ''seq/render003.png''])"
    by code_simp
  then show ?thesis using reachable_smallAtEnd by simp
qed

subsection \<open>Claim C2: the year indicator\<close>

lemma year_clamp: "min 2016 (max 2000 (jsInt y)) = clamp y 2000 2016"
proof -
  have ends: "jsInt 2000 = 2000" "jsInt 2016 = 2016" by (simp_all add: jsInt_exact)
  consider "y \<le> 2000" | "2016 \<le> y" | "2000 < y" "y < 2016" by linarith
  then show ?thesis
  proof cases
    case 1
    then have "jsInt y \<le> 2000" using jsInt_mono [of y 2000] ends by simp
    then show ?thesis using 1 by (simp add: clamp_def max_def min_def)
  next
    case 2
    then have "2016 \<le> jsInt y" using jsInt_mono [of 2016 y] ends by simp
    then show ?thesis using 2 by (simp add: clamp_def max_def min_def)
  next
    case 3
    then have "jsInt y = y" by (intro jsInt_exact) simp
    then show ?thesis using 3 by (simp add: clamp_def max_def min_def)
  qed
qed

lemma onScroll_past_end:
  assumes "initialized s" and "sectionHeight - viewportHeight < - rectTop" and "0 \<le> - rectTop"
  shows "onScroll s rectTop rectBottom sectionHeight viewportHeight =
    Some (let s3 = updateOverlay
                (drawFrame (s\<lparr>inView := (rectTop < viewportHeight \<and> rectBottom > 0)\<rparr>)
                   (jsInt (totalFrames s - 1))) False
          in if hasYearIndicator s then updateYearIndicator s3 2016 else s3)"
  using assms
  by (simp add: onScroll_def Let_def updateOverlay_def drawFrame_fields)

text \<open>
  Claim C2, as amended. With the year indicator enabled and its two elements present, a
  scroll with \<open>0 \<le> scrollStart \<le> scrollRange\<close> and \<open>scrollRange > 0\<close> that changes the
  frame index sets \<open>currentYear\<close> to
  \<open>clamp(startYear + floor(frameIndex / framesPerYear), 2000, 2016)\<close>, the quotient being
  that of JavaScript, and writes that year to the indicator exactly when it differs from
  the \<open>currentYear\<close> held before; a scroll with \<open>scrollStart \<ge> 0\<close> and
  \<open>scrollStart > scrollRange\<close> writes 2016 to the indicator.
\<close>

theorem onScroll_year_indicator:
  assumes "initialized s" and "hasYearIndicator s" and "0 < framesPerYear s"
    and "yearValueEl s" and "countriesListEl s"
    and "scrollStart = - rectTop" and "scrollRange = sectionHeight - viewportHeight"
    and "0 \<le> scrollStart"
    and "frameIndex = scrollFrameIndex s (scrollProgress scrollStart scrollRange)"
    and "year = clamp (startYear s +
           \<lfloor>jsDiv (real_of_int frameIndex) (real_of_int (framesPerYear s))\<rfloor>) 2000 2016"
  shows "(scrollStart \<le> scrollRange \<and> 0 < scrollRange \<and> frameIndex \<noteq> currentFrame s \<longrightarrow>
       (\<exists>s'. onScroll s rectTop rectBottom sectionHeight viewportHeight = Some s' \<and>
          currentFrame s' = frameIndex \<and> currentYear s' = year \<and>
          yearLog s' = (if year \<noteq> currentYear s then yearLog s @ [year] else yearLog s))) \<and>
    (scrollRange < scrollStart \<longrightarrow>
       (\<exists>s'. onScroll s rectTop rectBottom sectionHeight viewportHeight = Some s' \<and>
          yearLog s' = yearLog s @ [2016]))"
proof -
  have y: "year = min 2016 (max 2000 (jsInt (startYear s +
      \<lfloor>jsDiv (real_of_int frameIndex) (real_of_int (framesPerYear s))\<rfloor>)))"
    unfolding assms(10) by (simp only: year_clamp)
  have a: "\<exists>s'. onScroll s rectTop rectBottom sectionHeight viewportHeight = Some s' \<and>
          currentFrame s' = frameIndex \<and> currentYear s' = year \<and>
          yearLog s' = (if year \<noteq> currentYear s then yearLog s @ [year] else yearLog s)"
    if "scrollStart \<le> scrollRange" "0 < scrollRange" "frameIndex \<noteq> currentFrame s"
    using assms(1-9) that unfolding y
    by (simp add: onScroll_def Let_def updateOverlay_def updateYearIndicator_def
        scrollFrameIndex_inView preloadBuffer_fields drawFrame_fields)
  have b: "\<exists>s'. onScroll s rectTop rectBottom sectionHeight viewportHeight = Some s' \<and>
          yearLog s' = yearLog s @ [2016]" if "scrollRange < scrollStart"
  proof -
    have "sectionHeight - viewportHeight < - rectTop" "0 \<le> - rectTop"
      using that assms(6,7,8) by simp_all
    from onScroll_past_end [OF assms(1) this]
    show ?thesis
      using assms(2,4,5)
      by (simp add: Let_def updateOverlay_def updateYearIndicator_def drawFrame_fields)
  qed
  show ?thesis using a b by blast
qed

text \<open>
  Claim C2, an instance of the amended statement: the three-frame player that starts in 1990
  scrolls from frame 0 to frame 2 and shows 2000.
\<close>

theorem onScroll_year_indicator_witness:
  "initialized smallFull \<and> hasYearIndicator smallFull \<and> 0 < framesPerYear smallFull \<and>
   scrollFrameIndex smallFull (scrollProgress 100 100) = 2 \<and> currentFrame smallFull = 0 \<and>
   clamp (startYear smallFull +
     \<lfloor>jsDiv (real_of_int 2) (real_of_int (framesPerYear smallFull))\<rfloor>) 2000 2016 = 2000 \<and>
   map_option yearLog (onScroll smallFull (- 100) 500 700 600) = Some [1990, 2000]"
proof -
  have h: "initialized smallFull" "hasYearIndicator smallFull" "0 < framesPerYear smallFull"
    "yearValueEl smallFull" "countriesListEl smallFull"
    by (simp_all add: smallFull_def)
  have g: "(100::real) = - (- 100)" "(100::real) = 700 - 600" "(0::real) \<le> 100" by simp_all
  have f: "2 = scrollFrameIndex smallFull (scrollProgress 100 100)"
    by code_simp
  have y: "2000 = clamp (startYear smallFull +
      \<lfloor>jsDiv (real_of_int 2) (real_of_int (framesPerYear smallFull))\<rfloor>) 2000 2016"
    by code_simp
  have c: "currentFrame smallFull = 0" "currentYear smallFull = 1990" "yearLog smallFull = [1990]"
    by (simp_all add: smallFull_def)
  from onScroll_year_indicator [OF h g f y, of 500]
  have "map_option yearLog (onScroll smallFull (- 100) 500 700 600) = Some [1990, 2000]"
    using c by auto
  then show ?thesis using h c f [symmetric] y [symmetric] by simp
qed

text \<open>
  Claim C2 as stated fails when \<open>startYear\<close> is not 2000, and before the section. The
  three-frame player starts in 1990 with one frame per year. Scrolled to frame 2 it shows
  2000, not \<open>clamp(1990 + 2, 1990, 2006) = 1992\<close>; scrolled past the end it shows 2016, not
  \<open>1990 + 16 = 2006\<close>; and with \<open>scrollStart = -50 > scrollRange = -100\<close> the handler
  returns before it writes any year.
\<close>

theorem onScroll_year_not_relative_to_startYear_counterexample:
  "reachable smallFull \<and> hasYearIndicator smallFull \<and> startYear smallFull = 1990 \<and>
   map_option currentFrame (onScroll smallFull (- 100) 500 700 600) = Some 2 \<and>
   map_option yearLog (onScroll smallFull (- 100) 500 700 600) = Some [1990, 2000] \<and>
   clamp (startYear smallFull +
     \<lfloor>jsDiv (real_of_int 2) (real_of_int (framesPerYear smallFull))\<rfloor>)
     (startYear smallFull) (startYear smallFull + 16) = 1992 \<and>
   map_option yearLog (onScroll smallFull (- 150) 450 700 600) = Some [1990, 2016] \<and>
   startYear smallFull + 16 = 2006 \<and>
   - (50::real) > 500 - 600 \<and>
   map_option yearLog (onScroll smallFull 50 550 500 600) = Some [1990]"
proof -
  have "hasYearIndicator smallFull \<and> startYear smallFull = 1990 \<and>
   map_option currentFrame (onScroll smallFull (- 100) 500 700 600) = Some 2 \<and>
   map_option yearLog (onScroll smallFull (- 100) 500 700 600) = Some [1990, 2000] \<and>
   clamp (startYear smallFull +
     \<lfloor>jsDiv (real_of_int 2) (real_of_int (framesPerYear smallFull))\<rfloor>)
     (startYear smallFull) (startYear smallFull + 16) = 1992 \<and>
   map_option yearLog (onScroll smallFull (- 150) 450 700 600) = Some [1990, 2016] \<and>
   startYear smallFull + 16 = 2006 \<and>
   - (50::real) > 500 - 600 \<and>
   map_option yearLog (onScroll smallFull 50 550 500 600) = Some [1990]"
    by code_simp
  with reachable_smallFull show ?thesis by (rule conjI)
qed

subsection \<open>Claim C6: the prefetch window\<close>

lemma loadFrame_starts:
  assumes "0 \<le> i" and "i < totalFrames s" and "imageAt s i = None" and "i \<notin> loadingFrames s"
  shows "loadFrame s i =
    (s\<lparr>loadingFrames := insert i (loadingFrames s),
       fetchLog := fetchLog s @ [(i, getFrameSrc s i)],
       outstanding := outstanding s @ [(length (fetchLog s), i, getFrameSrc s i)]\<rparr>,
     Pending (length (fetchLog s)))"
  using assms by (simp add: loadFrame_def Let_def)

lemma preloadLoop_requests:
  "0 \<le> i \<Longrightarrow> endI < totalFrames s \<Longrightarrow>
   fetchLog (preloadLoop s i endI) =
     fetchLog s @ map (\<lambda>j. (j, getFrameSrc s j))
       (filter (\<lambda>j. imageAt s j = None \<and> j \<notin> loadingFrames s) [i..endI]) \<and>
   loadingFrames (preloadLoop s i endI) =
     loadingFrames s \<union>
       set (filter (\<lambda>j. imageAt s j = None \<and> j \<notin> loadingFrames s) [i..endI])"
proof (induction s i endI rule: preloadLoop.induct)
  case (1 s i endI)
  show ?case
  proof (cases "i \<le> endI")
    case False
    then show ?thesis by (simp add: preloadLoop_done)
  next
    case True
    have range: "0 \<le> i" "i < totalFrames s" using 1(2,3) True by simp_all
    have up: "[i..endI] = i # [i + 1..endI]" using True by (simp add: upto_rec1)
    show ?thesis
    proof (cases "imageAt s i = None \<and> i \<notin> loadingFrames s")
      case skip: False
      have step: "preloadLoop s i endI = preloadLoop s (i + 1) endI"
        using preloadLoop_step [OF True, of s] by (simp only: skip if_False)
      have "fetchLog (preloadLoop s (i + 1) endI) =
          fetchLog s @ map (\<lambda>j. (j, getFrameSrc s j))
            (filter (\<lambda>j. imageAt s j = None \<and> j \<notin> loadingFrames s) [i + 1..endI]) \<and>
        loadingFrames (preloadLoop s (i + 1) endI) =
          loadingFrames s \<union>
            set (filter (\<lambda>j. imageAt s j = None \<and> j \<notin> loadingFrames s) [i + 1..endI])"
        using 1(1) [OF True] skip range(1) 1(3) by simp
      then show ?thesis unfolding step up using skip by simp
    next
      case load: True
      define s1 where "s1 = fst (loadFrame s i)"
      have "(if imageAt s i = None \<and> i \<notin> loadingFrames s then fst (loadFrame s i) else s) = s1"
        unfolding s1_def using load by (rule if_P)
      then have step: "preloadLoop s i endI = preloadLoop s1 (i + 1) endI"
        using preloadLoop_step [OF True, of s] by simp
      have u: "untouched s1 = untouched s" unfolding s1_def by (rule untouched_loadFrame)
      have tf: "totalFrames s1 = totalFrames s" using untouchedD [OF u] by simp
      have img: "imageAt s1 j = imageAt s j" for j using u by (rule untouched_imageAt)
      have src: "getFrameSrc s1 j = getFrameSrc s j" for j using u by (rule untouched_getFrameSrc)
      have fl: "fetchLog s1 = fetchLog s @ [(i, getFrameSrc s i)]"
        using range load by (simp add: s1_def loadFrame_starts)
      have lf: "loadingFrames s1 = insert i (loadingFrames s)"
        using range load by (simp add: s1_def loadFrame_starts)
      have flt: "filter (\<lambda>j. imageAt s1 j = None \<and> j \<notin> loadingFrames s1) [i + 1..endI] =
          filter (\<lambda>j. imageAt s j = None \<and> j \<notin> loadingFrames s) [i + 1..endI]"
        by (rule filter_cong [OF refl]) (simp add: img lf)
      have ih: "fetchLog (preloadLoop s1 (i + 1) endI) =
          fetchLog s1 @ map (\<lambda>j. (j, getFrameSrc s1 j))
            (filter (\<lambda>j. imageAt s1 j = None \<and> j \<notin> loadingFrames s1) [i + 1..endI]) \<and>
        loadingFrames (preloadLoop s1 (i + 1) endI) =
          loadingFrames s1 \<union>
            set (filter (\<lambda>j. imageAt s1 j = None \<and> j \<notin> loadingFrames s1) [i + 1..endI])"
        using 1(1) [OF True] load range(1) 1(3) tf by (simp add: s1_def)
      from ih [unfolded flt]
      have "fetchLog (preloadLoop s1 (i + 1) endI) =
          (fetchLog s @ [(i, getFrameSrc s i)]) @ map (\<lambda>j. (j, getFrameSrc s j))
            (filter (\<lambda>j. imageAt s j = None \<and> j \<notin> loadingFrames s) [i + 1..endI]) \<and>
        loadingFrames (preloadLoop s1 (i + 1) endI) =
          insert i (loadingFrames s) \<union>
            set (filter (\<lambda>j. imageAt s j = None \<and> j \<notin> loadingFrames s) [i + 1..endI])"
        unfolding src fl lf .
      then show ?thesis unfolding step up using load by simp
    qed
  qed
qed

text \<open>
  Claim C6. With the buffer radius 15 that the constructor sets, \<open>preloadBuffer(center)\<close>
  starts one request for each index of
  \<open>[max(0, center - 15), min(totalFrames - 1, center + 15)]\<close> that is neither cached nor
  in flight, in increasing order, and no other request; these indices join the in-flight
  set and the cache is not touched.
\<close>

theorem preloadBuffer_window:
  assumes "bufferSize s = 15"
    and "window = filter (\<lambda>i. imageAt s i = None \<and> i \<notin> loadingFrames s)
           [max 0 (center - 15)..min (totalFrames s - 1) (center + 15)]"
  shows "fetchLog (preloadBuffer s center) =
      fetchLog s @ map (\<lambda>i. (i, getFrameSrc s i)) window \<and>
    loadingFrames (preloadBuffer s center) = loadingFrames s \<union> set window \<and>
    images (preloadBuffer s center) = images s"
proof -
  have "0 \<le> max 0 (center - 15)" "min (totalFrames s - 1) (center + 15) < totalFrames s"
    by simp_all
  from preloadLoop_requests [OF this]
  have "fetchLog (preloadBuffer s center) =
      fetchLog s @ map (\<lambda>i. (i, getFrameSrc s i)) window \<and>
    loadingFrames (preloadBuffer s center) = loadingFrames s \<union> set window"
    unfolding assms(2) using assms(1) by (simp add: preloadBuffer_def Let_def)
  moreover have "images (preloadBuffer s center) = images s"
    by (simp add: preloadBuffer_fields)
  ultimately show ?thesis by simp
qed

text \<open>
  Claim C6, an instance: on the three-frame player just constructed, with frame 0 in flight,
  \<open>preloadBuffer(0)\<close> clamps the window to \<open>[0, 2]\<close> and requests the frames 1 and 2.
\<close>

theorem preloadBuffer_window_witness:
  "bufferSize smallStart = 15 \<and>
   filter (\<lambda>i. imageAt smallStart i = None \<and> i \<notin> loadingFrames smallStart)
     [max 0 (0 - 15)..min (totalFrames smallStart - 1) (0 + 15)] = [1, 2] \<and>
   fetchLog (preloadBuffer smallStart 0) =
     [(0, ''seq/render001.png''), (1, ''seq/render002.png''), (2, ''seq/render003.png'')] \<and>
   loadingFrames (preloadBuffer smallStart 0) = {0, 1, 2}"
proof -
  have h: "bufferSize smallStart = 15" by (simp add: smallStart_def)
  have w: "[1, 2] = filter (\<lambda>i. imageAt smallStart i = None \<and> i \<notin> loadingFrames smallStart)
     [max 0 (0 - 15)..min (totalFrames smallStart - 1) (0 + 15)]"
    by code_simp
  have g: "map (\<lambda>i. (i, getFrameSrc smallStart i)) [1, 2] =
      [(1, ''seq/render002.png''), (2, ''seq/render003.png'')]"
    by code_simp
  have c: "fetchLog smallStart = [(0, ''seq/render001.png'')]" "loadingFrames smallStart = {0}"
    by (simp_all add: smallStart_def)
  from preloadBuffer_window [OF h w]
  show ?thesis using h w [symmetric] g c by auto
qed

subsection \<open>The requests stay consistent\<close>

lemma imageAt_images: "images a = images b \<Longrightarrow> imageAt a i = imageAt b i"
  by (simp add: imageAt_def)

lemma consistent_cong:
  assumes "outstanding a = outstanding b" and "loadingFrames a = loadingFrames b"
    and "fetchLog a = fetchLog b" and "totalFrames a = totalFrames b" and "images a = images b"
  shows "consistent a = consistent b"
proof -
  have "pendingOk a = pendingOk b"
    using assms(3,4) by (simp add: pendingOk_def fun_eq_iff imageAt_images [OF assms(5)])
  then show ?thesis using assms by (simp add: consistent_def)
qed

lemma consistent_paint [simp]: "consistent (paint s im) = consistent s"
  by (rule consistent_cong) (simp_all add: paint_def)

lemma consistent_updateOverlay [simp]: "consistent (updateOverlay s b) = consistent s"
  by (rule consistent_cong) (simp_all add: updateOverlay_def)

lemma consistent_updateYearIndicator [simp]: "consistent (updateYearIndicator s y) = consistent s"
  by (rule consistent_cong) (simp_all add: updateYearIndicator_def)

lemma consistent_updates [simp]:
  "consistent (s\<lparr>inView := iv\<rparr>) = consistent s"
  "consistent (s\<lparr>currentFrame := cf\<rparr>) = consistent s"
  "consistent (s\<lparr>currentYear := cy\<rparr>) = consistent s"
  "consistent (s\<lparr>drawWaiting := dw\<rparr>) = consistent s"
  "consistent (s\<lparr>initWaiting := iw\<rparr>) = consistent s"
  "consistent (s\<lparr>scrollBound := sb\<rparr>) = consistent s"
  "consistent (s\<lparr>initialized := ini\<rparr>) = consistent s"
  by (rule consistent_cong; simp)+

lemma consistent_drawResume [simp]: "consistent (drawResume s r) = consistent s"
  by (simp add: drawResume_def Let_def split: option.split)



























subsection \<open>Claim C4: one request per frame\<close>




subsection \<open>Claim C5: a failed load, and the next draw\<close>













end
